theory Spec2Isabelle
  imports Main "HOL-Library.Sublist"
begin

section \<open>Data model of ReactorListModal\<close>

text \<open>
  The component \<^verbatim>\<open>ReactorListModal\<close> (src/components/middle/ReactorListModal.tsx) receives
  from the global store the \<^verbatim>\<open>reactors\<close>, \<^verbatim>\<open>reactions\<close> and \<^verbatim>\<open>seenByUserIds\<close> fields of a
  message.  A field that may be \<^verbatim>\<open>undefined\<close> is an \<open>option\<close>; user ids and reaction kinds
  are strings.  A reaction kind is an emoji in the running program; the examples below
  write \<open>''heart''\<close> and \<open>''thumbsup''\<close> for the two emoji of the specification's scenario.
\<close>

type_synonym userId = string
type_synonym reactionKind = string

text \<open>One element of \<^verbatim>\<open>reactors.reactions\<close>: who reacted, and with what.\<close>

record ApiUserReaction =
  userId :: userId
  reaction :: reactionKind

text \<open>The \<^verbatim>\<open>reactors\<close> field: the reactor entries loaded so far, the total count and the
  offset of the next page, absent once the last page has been received.\<close>

record Reactors =
  nextOffset :: "string option"
  count :: int
  reactions :: "ApiUserReaction list"

text \<open>One element of \<^verbatim>\<open>reactions.results\<close>: the aggregate count of one reaction kind.\<close>

record ApiReactionCount =
  resultReaction :: reactionKind
  resultCount :: int

record ApiReactions =
  results :: "ApiReactionCount list"

section \<open>JavaScript idioms used by the component\<close>

text \<open>\<^verbatim>\<open>if (chosenTab)\<close> on a \<^verbatim>\<open>string | undefined\<close>: the empty string and
  \<^verbatim>\<open>undefined\<close> are both falsy.\<close>

definition truthy :: "string option \<Rightarrow> bool" where
  "truthy v = (case v of None \<Rightarrow> False | Some s \<Rightarrow> s \<noteq> [])"

text \<open>\<^verbatim>\<open>xs || []\<close> on an array or \<^verbatim>\<open>undefined\<close>: every array is truthy, so the default is
  taken for \<^verbatim>\<open>undefined\<close> only.\<close>

definition orEmpty :: "'a list option \<Rightarrow> 'a list" where
  "orEmpty v = (case v of None \<Rightarrow> [] | Some xs \<Rightarrow> xs)"

text \<open>
  Modelled from the spec: \<^verbatim>\<open>unique\<close> is imported from \<^verbatim>\<open>util/iteratees\<close>, which is not among
  the sources.  The specification describes it as removing duplicates while keeping each
  element's first occurrence; the model inserts the elements one by one into an
  insertion-ordered collection, where inserting an element already present changes nothing.
\<close>

primrec uniqueInto :: "'a list \<Rightarrow> 'a list \<Rightarrow> 'a list" where
  "uniqueInto acc [] = acc"
| "uniqueInto acc (x # xs) = uniqueInto (if x \<in> set acc then acc else acc @ [x]) xs"

definition unique :: "'a list \<Rightarrow> 'a list" where
  "unique xs = uniqueInto [] xs"

section \<open>The list of user ids\<close>

text \<open>
  \<^verbatim>\<open>
  const userIds = useMemo(() => {
    if (chosenTab) {
      return reactors?.reactions.filter((l) => l.reaction === chosenTab).map((l) => l.userId);
    }
    return unique(reactors?.reactions.map((l) => l.userId).concat(seenByUserIds || []) || []);
  }, [chosenTab, reactors, seenByUserIds]);
  \<close>
  An optional chain \<^verbatim>\<open>reactors?.f(...)\<close> is \<open>map_option\<close>: with \<^verbatim>\<open>reactors\<close> absent the whole
  chain, the \<^verbatim>\<open>concat\<close> included, is \<^verbatim>\<open>undefined\<close>.  The result \<open>None\<close> is \<^verbatim>\<open>undefined\<close>.
\<close>

definition userIds ::
  "string option \<Rightarrow> Reactors option \<Rightarrow> userId list option \<Rightarrow> userId list option" where
  "userIds chosenTab reactors seenByUserIds =
     (case (if truthy chosenTab then chosenTab else None) of
        Some tab \<Rightarrow>
          map_option (\<lambda>r. map userId (filter (\<lambda>l. reaction l = tab) (reactions r))) reactors
      | None \<Rightarrow>
          Some (unique (orEmpty
            (map_option (\<lambda>r. map userId (reactions r) @ orEmpty seenByUserIds) reactors))))"

text \<open>The specification's words for the same lists, to compare the code with.\<close>

text \<open>CandidateList: "removing duplicate ids while preserving first occurrence order".\<close>

fun keepFirst :: "'a list \<Rightarrow> 'a list" where
  "keepFirst [] = []"
| "keepFirst (x # xs) = x # filter (\<lambda>y. y \<noteq> x) (keepFirst xs)"

definition candidateListSpec :: "ApiUserReaction list \<Rightarrow> userId list \<Rightarrow> userId list" where
  "candidateListSpec entries seen = keepFirst (map userId entries @ seen)"

text \<open>Filter Projector: "the ordered subsequence of ids that have at least one
  ReactionEntry matching ActiveFilter's kind, preserving CandidateList's relative order".\<close>

definition hasEntryOfKind :: "ApiUserReaction list \<Rightarrow> reactionKind \<Rightarrow> userId \<Rightarrow> bool" where
  "hasEntryOfKind entries kind u = (\<exists>l \<in> set entries. userId l = u \<and> reaction l = kind)"

definition projectedSpec ::
  "reactionKind \<Rightarrow> ApiUserReaction list \<Rightarrow> userId list \<Rightarrow> userId list" where
  "projectedSpec kind entries seen =
     filter (hasEntryOfKind entries kind) (candidateListSpec entries seen)"

text \<open>The scenario of the specification: entries (U1, heart), (U2, thumbsup),
  (U1, thumbsup), no further page, and U3 in the seen set.\<close>

definition scenarioEntries :: "ApiUserReaction list" where
  "scenarioEntries =
     [\<lparr>userId = ''U1'', reaction = ''heart''\<rparr>,
      \<lparr>userId = ''U2'', reaction = ''thumbsup''\<rparr>,
      \<lparr>userId = ''U1'', reaction = ''thumbsup''\<rparr>]"

definition scenarioReactors :: Reactors where
  "scenarioReactors = \<lparr>nextOffset = None, count = 3, reactions = scenarioEntries\<rparr>"

section \<open>Filter tabs\<close>

definition MIN_REACTIONS_COUNT_FOR_FILTERS :: int where
  "MIN_REACTIONS_COUNT_FOR_FILTERS = 10"

text \<open>
  \<^verbatim>\<open>
  const canShowFilters = reactors && reactions && reactors.count >= MIN_REACTIONS_COUNT_FOR_FILTERS
    && reactions.results.length > 1;
  \<close>
  The value is used for its truthiness only (\<^verbatim>\<open>canShowFilters && (...)\<close>); the message's
  \<^verbatim>\<open>reactions\<close> field is called \<open>messageReactions\<close> here.
\<close>

definition canShowFilters :: "Reactors option \<Rightarrow> ApiReactions option \<Rightarrow> bool" where
  "canShowFilters reactors messageReactions =
     (case reactors of
        None \<Rightarrow> False
      | Some r \<Rightarrow>
          (case messageReactions of
             None \<Rightarrow> False
           | Some rs \<Rightarrow>
               MIN_REACTIONS_COUNT_FOR_FILTERS \<le> count r \<and> 1 < length (results rs)))"

text \<open>
  \<^verbatim>\<open>
  const allReactions = useMemo(() => {
    return reactors?.reactions ? unique(reactors.reactions.map((l) => l.reaction)) : [];
  }, [reactors]);
  \<close>
\<close>

definition allReactions :: "Reactors option \<Rightarrow> reactionKind list" where
  "allReactions reactors =
     (case reactors of None \<Rightarrow> [] | Some r \<Rightarrow> unique (map reaction (reactions r)))"

text \<open>The buttons of the filter row, in the order they are rendered: the first one calls
  \<^verbatim>\<open>setChosenTab(undefined)\<close>, the one of a reaction kind calls \<^verbatim>\<open>setChosenTab(reaction)\<close>.
  The row is rendered under \<^verbatim>\<open>canShowFilters && (...)\<close> only.\<close>

datatype tab = AllTab | KindTab reactionKind

fun tabValue :: "tab \<Rightarrow> string option" where
  "tabValue AllTab = None"
| "tabValue (KindTab k) = Some k"

definition filterTabs :: "Reactors option \<Rightarrow> ApiReactions option \<Rightarrow> tab list" where
  "filterTabs reactors messageReactions =
     (if canShowFilters reactors messageReactions
      then AllTab # map KindTab (allReactions reactors)
      else [])"

text \<open>The specification's words for the threshold: the total reaction count, and the
  reaction kinds among the results (one row of \<^verbatim>\<open>reactions.results\<close> per kind).\<close>

definition totalReactionCount :: "Reactors option \<Rightarrow> int" where
  "totalReactionCount reactors = (case reactors of None \<Rightarrow> 0 | Some r \<Rightarrow> count r)"

definition resultKinds :: "ApiReactions option \<Rightarrow> reactionKind list" where
  "resultKinds messageReactions =
     (case messageReactions of None \<Rightarrow> [] | Some rs \<Rightarrow> map resultReaction (results rs))"

section \<open>The component: props, state and handlers\<close>

text \<open>
  One record holds what a render of the component sees: the props (\<open>isOpen\<close>, \<open>reactors\<close>,
  \<open>messageReactions\<close>, \<open>chatId\<close>, \<open>messageId\<close>, \<open>seenByUserIds\<close>), the local state
  (\<open>isClosing\<close> of \<^verbatim>\<open>useFlag(false)\<close>, \<open>chosenTab\<close> of \<^verbatim>\<open>useState\<close>, \<open>chatIdRef\<close> of
  \<^verbatim>\<open>useRef\<close>) and \<open>pendingFetch\<close>, the flag of the specification's PaginationState that the
  pagination hook keeps.
\<close>

record component =
  isOpen :: bool
  reactors :: "Reactors option"
  messageReactions :: "ApiReactions option"
  chatId :: "string option"
  messageId :: "int option"
  seenByUserIds :: "userId list option"
  isClosing :: bool
  chosenTab :: "string option"
  chatIdRef :: "string option"
  pendingFetch :: bool

text \<open>The actions of \<^verbatim>\<open>getActions()\<close> that the component dispatches.\<close>

datatype action =
    LoadReactors "string option" "int option"
  | OpenChat string
  | CloseReactorListModal

text \<open>
  \<^verbatim>\<open>
  useEffect(() => {
    if (isOpen && !isClosing) {
      chatIdRef.current = undefined;
    }
    if (isClosing && !isOpen) {
      stopClosing();
      setChosenTab(undefined);
    }
  }, [isClosing, isOpen, stopClosing]);
  \<close>
  \<^verbatim>\<open>stopClosing\<close> is the third component of \<^verbatim>\<open>useFlag\<close> and sets the flag to false.
\<close>

definition lifecycleEffect :: "component \<Rightarrow> component" where
  "lifecycleEffect c =
     (let c1 = (if isOpen c \<and> \<not> isClosing c then c\<lparr>chatIdRef := None\<rparr> else c)
      in if isClosing c \<and> \<not> isOpen c
         then c1\<lparr>isClosing := False, chosenTab := None\<rparr>
         else c1)"

text \<open>The effect runs after a render whose dependencies \<^verbatim>\<open>[isClosing, isOpen]\<close> differ from
  those of the render before.\<close>

definition depsChanged :: "component \<Rightarrow> component \<Rightarrow> bool" where
  "depsChanged old new = (isClosing new \<noteq> isClosing old \<or> isOpen new \<noteq> isOpen old)"

text \<open>
  \<^verbatim>\<open>
  const handleCloseAnimationEnd = useCallback(() => {
    if (chatIdRef.current) {
      openChat({ id: chatIdRef.current });
    }
    closeReactorListModal();
  }, [closeReactorListModal, openChat]);
  \<close>
\<close>

definition handleCloseAnimationEnd :: "component \<Rightarrow> action list" where
  "handleCloseAnimationEnd c =
     (case (if truthy (chatIdRef c) then chatIdRef c else None) of
        Some u \<Rightarrow> [OpenChat u]
      | None \<Rightarrow> []) @ [CloseReactorListModal]"

text \<open>
  Modelled from the spec: \<^verbatim>\<open>useFlag\<close> is imported from \<^verbatim>\<open>hooks/useFlag\<close>, which is not among the
  sources.  Its result \<^verbatim>\<open>[isClosing, startClosing, stopClosing]\<close> is the flag of the
  specification's closing-animation state, a callback that sets the flag and a callback
  that clears it.  \<^verbatim>\<open>handleClose\<close> calls \<^verbatim>\<open>startClosing()\<close>.
\<close>

definition handleClose :: "component \<Rightarrow> component" where
  "handleClose c = c\<lparr>isClosing := True\<rparr>"

text \<open>\<^verbatim>\<open>handleClick(userId)\<close>: \<^verbatim>\<open>chatIdRef.current = userId; handleClose();\<close>\<close>

definition handleClick :: "userId \<Rightarrow> component \<Rightarrow> component" where
  "handleClick u c = handleClose (c\<lparr>chatIdRef := Some u\<rparr>)"

text \<open>\<^verbatim>\<open>handleLoadMore\<close>: \<^verbatim>\<open>loadReactors({ chatId, messageId })\<close>.\<close>

definition handleLoadMore :: "component \<Rightarrow> action list" where
  "handleLoadMore c = [LoadReactors (chatId c) (messageId c)]"

text \<open>A click on a button of the filter row; a button that is not rendered cannot be
  clicked.\<close>

definition selectTab :: "tab \<Rightarrow> component \<Rightarrow> component" where
  "selectTab t c =
     (if t \<in> set (filterTabs (reactors c) (messageReactions c))
      then c\<lparr>chosenTab := tabValue t\<rparr>
      else c)"

section \<open>Pagination\<close>

text \<open>The third argument of \<^verbatim>\<open>useInfiniteScroll\<close>:
  \<^verbatim>\<open>reactors && reactors.nextOffset === undefined\<close>, used for its truthiness.\<close>

definition isDisabled :: "Reactors option \<Rightarrow> bool" where
  "isDisabled rs = (case rs of None \<Rightarrow> False | Some r \<Rightarrow> nextOffset r = None)"

text \<open>The specification's \<open>hasMore\<close> is the negation of that argument.\<close>

definition hasMore :: "component \<Rightarrow> bool" where
  "hasMore c = (\<not> isDisabled (reactors c))"

text \<open>
  Modelled from the spec: \<^verbatim>\<open>LoadMoreDirection\<close> is declared in \<^verbatim>\<open>types\<close>, which is not among the
  sources.  The component names the member \<^verbatim>\<open>Backwards\<close> only; \<open>Forwards\<close> stands for the
  opposite direction.
\<close>

datatype LoadMoreDirection = Backwards | Forwards

text \<open>
  What \<^verbatim>\<open>useInfiniteScroll\<close> returns to the component: \<^verbatim>\<open>[viewportIds, getMore]\<close>, both of
  which may be \<^verbatim>\<open>undefined\<close>.  Of \<^verbatim>\<open>getMore\<close> the record says whether it is there.
\<close>

record hookResult =
  viewportIds :: "userId list option"
  getMoreDefined :: bool

text \<open>
  \<^verbatim>\<open>
  useEffect(() => {
    getMore?.({ direction: LoadMoreDirection.Backwards });
  }, [getMore]);
  \<close>
  The result lists the calls of \<^verbatim>\<open>getMore\<close> that one run of the effect makes, each by the
  direction it passes.
\<close>

definition getMoreEffect :: "hookResult \<Rightarrow> LoadMoreDirection list" where
  "getMoreEffect h = (if getMoreDefined h then [Backwards] else [])"

text \<open>
  Modelled from the spec: \<^verbatim>\<open>useInfiniteScroll\<close> is imported from \<^verbatim>\<open>hooks/useInfiniteScroll\<close>,
  which is not among the sources.  The specification's controller exposes \<open>requestMore()\<close>,
  which issues the load request (the component's \<^verbatim>\<open>handleLoadMore\<close>) when \<open>hasMore\<close> is
  true and no fetch is pending, and then has a fetch pending.  A call of the \<^verbatim>\<open>getMore\<close>
  that the hook returns is a call of this operation.
\<close>

definition requestMore :: "component \<Rightarrow> component \<times> action list" where
  "requestMore c =
     (if hasMore c \<and> \<not> pendingFetch c
      then (c\<lparr>pendingFetch := True\<rparr>, handleLoadMore c)
      else (c, []))"

primrec getMoreCalls :: "LoadMoreDirection list \<Rightarrow> component \<Rightarrow> component \<times> action list" where
  "getMoreCalls [] c = (c, [])"
| "getMoreCalls (d # ds) c =
     (let (c1, as1) = requestMore c; (c2, as2) = getMoreCalls ds c1 in (c2, as1 @ as2))"

section \<open>Mount and events\<close>

text \<open>
  The first render starts from \<^verbatim>\<open>useFlag(false)\<close>, \<^verbatim>\<open>useState(undefined)\<close> and an empty
  \<^verbatim>\<open>useRef\<close>; after it both effects run.
\<close>

definition initialState ::
  "bool \<Rightarrow> Reactors option \<Rightarrow> ApiReactions option \<Rightarrow> string option \<Rightarrow> int option \<Rightarrow>
   userId list option \<Rightarrow> component" where
  "initialState open rs mr cid mid seen =
     \<lparr>isOpen = open, reactors = rs, messageReactions = mr, chatId = cid, messageId = mid,
      seenByUserIds = seen, isClosing = False, chosenTab = None, chatIdRef = None,
      pendingFetch = False\<rparr>"

definition mount :: "component \<Rightarrow> hookResult \<Rightarrow> component \<times> action list" where
  "mount c0 h = getMoreCalls (getMoreEffect h) (lifecycleEffect c0)"

text \<open>
  The events the component reacts to.  \<open>Click\<close>, \<open>Close\<close> and \<open>CloseAnimationEnd\<close> are the
  callbacks \<^verbatim>\<open>handleClick\<close>, \<^verbatim>\<open>handleClose\<close> and \<^verbatim>\<open>handleCloseAnimationEnd\<close>; \<open>SetIsOpen\<close> is a
  change of the \<^verbatim>\<open>isOpen\<close> prop by the parent; \<open>SelectTab\<close> is a click in the filter row;
  \<open>ScrollNearEnd\<close> is \<^verbatim>\<open>onLoadMore\<close> of the list, which is \<^verbatim>\<open>getMore\<close>.  \<open>PageReceived\<close> and
  \<open>FetchFailed\<close> end a fetch as the specification says: a received page replaces the
  \<^verbatim>\<open>reactors\<close> prop, a failure leaves it, and both leave no fetch pending.
\<close>

datatype event =
    Click userId
  | Close
  | CloseAnimationEnd
  | SetIsOpen bool
  | SelectTab tab
  | ScrollNearEnd
  | PageReceived Reactors
  | FetchFailed

fun handle :: "event \<Rightarrow> component \<Rightarrow> component \<times> action list" where
  "handle (Click u) c = (handleClick u c, [])"
| "handle Close c = (handleClose c, [])"
| "handle CloseAnimationEnd c = (c, handleCloseAnimationEnd c)"
| "handle (SetIsOpen b) c = (c\<lparr>isOpen := b\<rparr>, [])"
| "handle (SelectTab t) c = (selectTab t c, [])"
| "handle ScrollNearEnd c = requestMore c"
| "handle (PageReceived r) c = (c\<lparr>reactors := Some r, pendingFetch := False\<rparr>, [])"
| "handle FetchFailed c = (c\<lparr>pendingFetch := False\<rparr>, [])"

text \<open>
  Which \<^verbatim>\<open>getMore\<close> the hook returns at a render, and whether it is the \<^verbatim>\<open>getMore\<close> of the
  render before, is decided inside \<^verbatim>\<open>useInfiniteScroll\<close>; neither the component nor the
  specification says.  The events below therefore take the hook as a parameter \<open>hook\<close>:
  for the state of a render it gives the \<^verbatim>\<open>viewportIds\<close> and the \<^verbatim>\<open>getMore\<close> of that render,
  the latter by its identity (\<open>None\<close> for \<^verbatim>\<open>undefined\<close>).
\<close>

definition hookResultOf :: "userId list option \<times> 'g option \<Rightarrow> hookResult" where
  "hookResultOf r = \<lparr>viewportIds = fst r, getMoreDefined = (snd r \<noteq> None)\<rparr>"

text \<open>
  The effects after the render \<open>new\<close> that follows the render \<open>old\<close>, in the order the
  component declares them: the lifecycle effect when \<^verbatim>\<open>[isClosing, isOpen]\<close> changed, then
  the effect on \<^verbatim>\<open>[getMore]\<close> when the hook returned another \<^verbatim>\<open>getMore\<close>.
\<close>

definition renderEffects ::
  "(component \<Rightarrow> userId list option \<times> 'g option) \<Rightarrow> component \<Rightarrow> component \<Rightarrow>
   component \<times> action list" where
  "renderEffects hook old new =
     (let c = (if depsChanged old new then lifecycleEffect new else new)
      in if snd (hook new) \<noteq> snd (hook old)
         then getMoreCalls (getMoreEffect (hookResultOf (hook new))) c
         else (c, []))"

text \<open>
  One event: its handler, then the render and its effects.  When the lifecycle effect has
  set state (\<^verbatim>\<open>stopClosing()\<close> changes \<^verbatim>\<open>isClosing\<close>), one more render follows, with its
  effects.
\<close>

definition step ::
  "(component \<Rightarrow> userId list option \<times> 'g option) \<Rightarrow> event \<Rightarrow> component \<Rightarrow>
   component \<times> action list" where
  "step hook e c =
     (let (c1, as1) = handle e c;
          (c2, as2) = renderEffects hook c c1;
          (c3, as3) = (if depsChanged c1 c2 then renderEffects hook c1 c2 else (c2, []))
      in (c3, as1 @ as2 @ as3))"

primrec run ::
  "(component \<Rightarrow> userId list option \<times> 'g option) \<Rightarrow> event list \<Rightarrow> component \<Rightarrow>
   component \<times> action list" where
  "run hook [] c = (c, [])"
| "run hook (e # es) c =
     (let (c1, as1) = step hook e c; (c2, as2) = run hook es c1 in (c2, as1 @ as2))"

text \<open>The overlay is shown open under \<^verbatim>\<open>isOpen={isOpen && !isClosing}\<close>.\<close>

definition modalOpen :: "component \<Rightarrow> bool" where
  "modalOpen c = (isOpen c \<and> \<not> isClosing c)"


fun isPageReceived :: "event \<Rightarrow> bool" where
  "isPageReceived (PageReceived r) = True"
| "isPageReceived e = False"

text \<open>An event that leaves the filter row hidden: any event but a page whose count, with the
  results \<open>mr\<close>, reaches the threshold.\<close>

fun keepsHidden :: "ApiReactions option \<Rightarrow> event \<Rightarrow> bool" where
  "keepsHidden mr (PageReceived r) = (\<not> canShowFilters (Some r) mr)"
| "keepsHidden mr e = True"


fun isLoadReactors :: "action \<Rightarrow> bool" where
  "isLoadReactors (LoadReactors cid mid) = True"
| "isLoadReactors a = False"

text \<open>A first page of a message with ten reactions of two kinds: the aggregate results
  list both kinds, the entries loaded so far are of one kind only.\<close>

definition firstPageReactors :: Reactors where
  "firstPageReactors =
     \<lparr>nextOffset = Some ''page2'', count = 10,
      reactions = [\<lparr>userId = ''U1'', reaction = ''thumbsup''\<rparr>,
                   \<lparr>userId = ''U2'', reaction = ''thumbsup''\<rparr>]\<rparr>"

definition twoKindResults :: ApiReactions where
  "twoKindResults =
     \<lparr>results = [\<lparr>resultReaction = ''thumbsup'', resultCount = 9\<rparr>,
                 \<lparr>resultReaction = ''heart'', resultCount = 1\<rparr>]\<rparr>"

text \<open>Results with two rows of the same kind.\<close>

definition sameKindResults :: ApiReactions where
  "sameKindResults =
     \<lparr>results = [\<lparr>resultReaction = ''thumbsup'', resultCount = 9\<rparr>,
                 \<lparr>resultReaction = ''thumbsup'', resultCount = 1\<rparr>]\<rparr>"

text \<open>Two states of a mounted, open component: one of that message, where the filter row
  is rendered, and one of the scenario's message with its three reactions, where it is not.\<close>

definition openState :: component where
  "openState =
     initialState True (Some firstPageReactors) (Some twoKindResults) (Some ''chat'') (Some 7)
       (Some [''U3''])"

definition fewReactionsState :: component where
  "fewReactionsState =
     initialState True (Some scenarioReactors) (Some twoKindResults) (Some ''chat'') (Some 7)
       (Some [''U3''])"

text \<open>
  Two hooks to run the examples with; both hand the whole list back as \<^verbatim>\<open>viewportIds\<close>.
  \<open>stableHook\<close> returns one and the same \<^verbatim>\<open>getMore\<close> at every render.  \<open>listKeyedHook\<close>
  returns another \<^verbatim>\<open>getMore\<close> whenever the list it is given has changed, as a callback
  memoised on that list does.
\<close>

definition stableHook :: "component \<Rightarrow> userId list option \<times> unit option" where
  "stableHook c = (userIds (chosenTab c) (reactors c) (seenByUserIds c), Some ())"

definition listKeyedHook ::
  "component \<Rightarrow> userId list option \<times> userId list option option" where
  "listKeyedHook c =
     (userIds (chosenTab c) (reactors c) (seenByUserIds c),
      Some (userIds (chosenTab c) (reactors c) (seenByUserIds c)))"

section \<open>Properties of unique\<close>

lemma set_uniqueInto: "set (uniqueInto acc xs) = set acc \<union> set xs"
  by (induction xs arbitrary: acc) auto

lemma distinct_uniqueInto: "distinct acc \<Longrightarrow> distinct (uniqueInto acc xs)"
  by (induction xs arbitrary: acc) auto

lemma uniqueInto_append:
  "uniqueInto acc (xs @ ys) = uniqueInto (uniqueInto acc xs) ys"
  by (induction xs arbitrary: acc) auto

lemma uniqueInto_keepFirst:
  "distinct acc \<Longrightarrow>
   uniqueInto acc xs = acc @ filter (\<lambda>y. y \<notin> set acc) (keepFirst xs)"
proof (induction xs arbitrary: acc)
  case Nil
  then show ?case by simp
next
  case (Cons x xs)
  show ?case
  proof (cases "x \<in> set acc")
    case True
    then have "filter (\<lambda>y. y \<notin> set acc) (filter (\<lambda>y. y \<noteq> x) (keepFirst xs))
                 = filter (\<lambda>y. y \<notin> set acc) (keepFirst xs)"
      by (auto intro: filter_cong)
    with True Cons show ?thesis by simp
  next
    case False
    then have d: "distinct (acc @ [x])" using Cons.prems by simp
    have "filter (\<lambda>y. y \<notin> set (acc @ [x])) (keepFirst xs)
            = filter (\<lambda>y. y \<notin> set acc) (filter (\<lambda>y. y \<noteq> x) (keepFirst xs))"
      by (auto intro: filter_cong)
    with False Cons.IH [OF d] show ?thesis by simp
  qed
qed

lemma unique_keepFirst: "unique xs = keepFirst xs"
  by (simp add: unique_def uniqueInto_keepFirst)

lemma set_unique: "set (unique xs) = set xs"
  by (simp add: unique_def set_uniqueInto)

lemma distinct_unique: "distinct (unique xs)"
  by (simp add: unique_def distinct_uniqueInto)

lemma unique_snoc:
  "unique (xs @ [x]) = (if x \<in> set xs then unique xs else unique xs @ [x])"
  by (simp add: unique_def uniqueInto_append set_uniqueInto)

lemma subseq_keepFirst: "subseq (keepFirst xs) xs"
proof (induction xs)
  case Nil
  then show ?case by simp
next
  case (Cons x xs)
  have "subseq (filter (\<lambda>y. y \<noteq> x) (keepFirst xs)) (keepFirst xs)"
    by simp
  from this Cons have "subseq (filter (\<lambda>y. y \<noteq> x) (keepFirst xs)) xs"
    by (rule subseq_order.order_trans)
  then show ?case by simp
qed

lemma set_keepFirst: "set (keepFirst xs) = set xs"
  using set_unique [of xs] by (simp add: unique_keepFirst)

lemma distinct_keepFirst: "distinct (keepFirst xs)"
  using distinct_unique [of xs] by (simp add: unique_keepFirst)

section \<open>The list of user ids: unfiltered\<close>

lemma userIds_unfiltered:
  "\<not> truthy tab \<Longrightarrow>
   userIds tab rs seen =
     Some (unique (orEmpty (map_option (\<lambda>r. map userId (reactions r) @ orEmpty seen) rs)))"
  by (simp add: userIds_def)

lemma userIds_filtered:
  "truthy tab \<Longrightarrow>
   userIds tab rs seen =
     map_option (\<lambda>r. map userId (filter (\<lambda>l. reaction l = the tab) (reactions r))) rs"
  by (cases tab) (simp_all add: userIds_def truthy_def)

text \<open>
  Claim C2.  With no chosen tab (\<^verbatim>\<open>undefined\<close> or the empty string) and \<^verbatim>\<open>reactors\<close> present,
  \<open>userIds\<close> is the specification's CandidateList: the user ids of the entries in source
  order followed by the seen ids, each id kept at its first occurrence.  The list has no
  duplicates, holds exactly the ids of the entries and of the seen set, and is a
  subsequence of the concatenation.  \<open>userIds\<close> is a function of its three inputs, so two
  calls on the same inputs give the same list.
\<close>

theorem userIds_unfiltered_candidateList:
  "\<not> truthy tab \<Longrightarrow>
   userIds tab (Some r) seen = Some (candidateListSpec (reactions r) (orEmpty seen)) \<and>
   distinct (candidateListSpec (reactions r) (orEmpty seen)) \<and>
   set (candidateListSpec (reactions r) (orEmpty seen))
     = userId ` set (reactions r) \<union> set (orEmpty seen) \<and>
   subseq (candidateListSpec (reactions r) (orEmpty seen))
     (map userId (reactions r) @ orEmpty seen)"
  by (simp add: userIds_unfiltered orEmpty_def candidateListSpec_def unique_keepFirst
      distinct_keepFirst set_keepFirst subseq_keepFirst split: option.splits)

theorem userIds_unfiltered_candidateList_witness:
  "\<not> truthy None \<and>
   userIds None (Some scenarioReactors) (Some [''U3'']) = Some [''U1'', ''U2'', ''U3'']"
  using userIds_unfiltered_candidateList [of None scenarioReactors "Some [''U3'']"]
  by (simp add: truthy_def candidateListSpec_def scenarioReactors_def scenarioEntries_def
      orEmpty_def)

text \<open>
  Claim C9.  With no chosen tab and \<^verbatim>\<open>reactors\<close> absent, \<open>userIds\<close> is the empty list whatever
  the seen set holds: the optional chain on \<^verbatim>\<open>reactors\<close> skips the \<^verbatim>\<open>concat\<close> of the seen ids.
\<close>

theorem userIds_without_reactors_empty:
  "\<not> truthy tab \<Longrightarrow> userIds tab None seen = Some []"
  by (simp add: userIds_unfiltered orEmpty_def unique_def)

theorem userIds_without_reactors_empty_witness:
  "\<not> truthy None \<and> userIds None None (Some [''U3'']) = Some []"
  using userIds_without_reactors_empty [of None "Some [''U3'']"]
  by (simp add: truthy_def)

section \<open>The list of user ids: filtered\<close>

text \<open>
  Claim C4.  With a chosen tab, a user id of the seen set that is the user of no reactor
  entry is not in \<open>userIds\<close> (which is \<^verbatim>\<open>undefined\<close>, holding no id, when \<^verbatim>\<open>reactors\<close> is
  absent).
\<close>

theorem userIds_filtered_excludes_seen_only:
  "truthy tab \<Longrightarrow> u \<in> set (orEmpty seen) \<Longrightarrow>
   u \<notin> userId ` set (orEmpty (map_option reactions rs)) \<Longrightarrow>
   u \<notin> set (orEmpty (userIds tab rs seen))"
  by (cases rs) (auto simp: userIds_filtered orEmpty_def)

theorem userIds_filtered_excludes_seen_only_witness:
  "truthy (Some ''thumbsup'') \<and> ''U3'' \<in> set (orEmpty (Some [''U3''])) \<and>
   ''U3'' \<notin> userId ` set (orEmpty (map_option reactions (Some scenarioReactors))) \<and>
   ''U3'' \<notin> set (orEmpty (userIds (Some ''thumbsup'') (Some scenarioReactors) (Some [''U3''])))"
  using userIds_filtered_excludes_seen_only
    [of "Some ''thumbsup''" "''U3''" "Some [''U3'']" "Some scenarioReactors"]
  by (simp add: truthy_def orEmpty_def scenarioReactors_def scenarioEntries_def)

text \<open>
  Claim C1, as stated, fails.  In the scenario of the specification the chosen tab
  \<open>''thumbsup''\<close> gives the ids in the order of the matching entries, U2 before U1, where
  the order of CandidateList would put U1 first.
\<close>

theorem userIds_filtered_not_candidate_order:
  "userIds (Some ''thumbsup'') (Some scenarioReactors) (Some [''U3'']) = Some [''U2'', ''U1''] \<and>
   projectedSpec ''thumbsup'' (reactions scenarioReactors) [''U3''] = [''U1'', ''U2''] \<and>
   userIds (Some ''thumbsup'') (Some scenarioReactors) (Some [''U3''])
     \<noteq> Some (projectedSpec ''thumbsup'' (reactions scenarioReactors) [''U3''])"
  by (simp add: userIds_def truthy_def scenarioReactors_def scenarioEntries_def
      projectedSpec_def candidateListSpec_def hasEntryOfKind_def)

text \<open>
  Claim C1, amended.  With a chosen tab and \<^verbatim>\<open>reactors\<close> present, \<open>userIds\<close> lists the user
  id of every entry of the chosen kind, in the source order of these entries.  Its ids
  are exactly the ids of CandidateList that have an entry of the chosen kind, and it is a
  subsequence of the entries' user ids.
\<close>

theorem userIds_filtered_entry_order:
  "truthy (Some kind) \<Longrightarrow>
   userIds (Some kind) (Some r) seen =
     Some (map userId (filter (\<lambda>l. reaction l = kind) (reactions r))) \<and>
   set (map userId (filter (\<lambda>l. reaction l = kind) (reactions r))) =
     set (projectedSpec kind (reactions r) (orEmpty seen)) \<and>
   subseq (map userId (filter (\<lambda>l. reaction l = kind) (reactions r)))
     (map userId (reactions r))"
  by (auto simp: userIds_filtered projectedSpec_def candidateListSpec_def set_keepFirst
      hasEntryOfKind_def subseq_map)

theorem userIds_filtered_entry_order_witness:
  "truthy (Some ''thumbsup'') \<and>
   userIds (Some ''thumbsup'') (Some scenarioReactors) (Some [''U3'']) = Some [''U2'', ''U1'']"
  using userIds_filtered_entry_order [of "''thumbsup''" scenarioReactors "Some [''U3'']"]
  by (simp add: truthy_def scenarioReactors_def scenarioEntries_def)

section \<open>Filter tabs\<close>

lemma canShowFilters_iff:
  "canShowFilters rs mr \<longleftrightarrow>
     10 \<le> totalReactionCount rs \<and> 1 < length (resultKinds mr)"
  by (simp add: canShowFilters_def totalReactionCount_def resultKinds_def
      MIN_REACTIONS_COUNT_FOR_FILTERS_def split: option.splits)

lemma set_allReactions:
  "set (allReactions rs) = reaction ` set (orEmpty (map_option reactions rs))"
  by (cases rs) (simp_all add: allReactions_def orEmpty_def set_unique)

lemma distinct_allReactions: "distinct (allReactions rs)"
  by (simp add: allReactions_def distinct_unique split: option.splits)

text \<open>The definitions that evaluate the component on the example states.\<close>

lemmas example_defs =
  openState_def fewReactionsState_def initialState_def firstPageReactors_def twoKindResults_def
  sameKindResults_def scenarioReactors_def scenarioEntries_def
  step_def renderEffects_def hookResultOf_def getMoreEffect_def stableHook_def
  listKeyedHook_def userIds_def depsChanged_def lifecycleEffect_def Let_def
  handleClick_def handleClose_def handleCloseAnimationEnd_def handleLoadMore_def selectTab_def
  requestMore_def hasMore_def isDisabled_def modalOpen_def truthy_def
  filterTabs_def canShowFilters_def allReactions_def unique_def
  MIN_REACTIONS_COUNT_FOR_FILTERS_def resultKinds_def orEmpty_def

text \<open>
  Claim C10.  The buttons of the filter row come from the reaction kinds of the loaded
  reactor entries: a kind that the aggregate results list, and that no loaded entry has,
  gets no button.
\<close>

theorem filterTabs_from_loaded_entries:
  "filterTabs rs mr =
     (if canShowFilters rs mr
      then AllTab # map KindTab (unique (map reaction (orEmpty (map_option reactions rs))))
      else []) \<and>
   (k \<in> set (resultKinds mr) \<and> k \<notin> reaction ` set (orEmpty (map_option reactions rs)) \<longrightarrow>
      KindTab k \<notin> set (filterTabs rs mr))"
proof (intro conjI impI)
  show "filterTabs rs mr =
     (if canShowFilters rs mr
      then AllTab # map KindTab (unique (map reaction (orEmpty (map_option reactions rs))))
      else [])"
    by (simp add: filterTabs_def allReactions_def orEmpty_def canShowFilters_def
        split: option.splits)
next
  assume "k \<in> set (resultKinds mr) \<and> k \<notin> reaction ` set (orEmpty (map_option reactions rs))"
  then have "k \<notin> set (allReactions rs)" by (simp add: set_allReactions)
  then show "KindTab k \<notin> set (filterTabs rs mr)"
    by (auto simp: filterTabs_def)
qed

theorem filterTabs_from_loaded_entries_witness:
  "''heart'' \<in> set (resultKinds (Some twoKindResults)) \<and>
   ''heart'' \<notin> reaction ` set (orEmpty (map_option reactions (Some firstPageReactors))) \<and>
   filterTabs (Some firstPageReactors) (Some twoKindResults) = [AllTab, KindTab ''thumbsup''] \<and>
   KindTab ''heart'' \<notin> set (filterTabs (Some firstPageReactors) (Some twoKindResults))"
  using filterTabs_from_loaded_entries
    [of "Some firstPageReactors" "Some twoKindResults" "''heart''"]
  by (simp add: firstPageReactors_def twoKindResults_def resultKinds_def orEmpty_def
      canShowFilters_def MIN_REACTIONS_COUNT_FOR_FILTERS_def unique_def)

section \<open>Effects and events, field by field\<close>

lemma lifecycleEffect_isOpen: "isOpen (lifecycleEffect c) = isOpen c"
  by (simp add: lifecycleEffect_def Let_def)

lemma lifecycleEffect_isClosing:
  "isClosing (lifecycleEffect c) = (isClosing c \<and> isOpen c)"
  by (auto simp: lifecycleEffect_def Let_def)


lemma lifecycleEffect_chosenTab:
  "chosenTab (lifecycleEffect c) = (if isClosing c \<and> \<not> isOpen c then None else chosenTab c)"
  by (simp add: lifecycleEffect_def Let_def)

lemma lifecycleEffect_data:
  "reactors (lifecycleEffect c) = reactors c"
  "messageReactions (lifecycleEffect c) = messageReactions c"
  "seenByUserIds (lifecycleEffect c) = seenByUserIds c"
  "chatId (lifecycleEffect c) = chatId c"
  "messageId (lifecycleEffect c) = messageId c"
  "pendingFetch (lifecycleEffect c) = pendingFetch c"
  by (simp_all add: lifecycleEffect_def Let_def)

lemma requestMore_fields:
  "isOpen (fst (requestMore c)) = isOpen c"
  "isClosing (fst (requestMore c)) = isClosing c"
  "chatIdRef (fst (requestMore c)) = chatIdRef c"
  "chosenTab (fst (requestMore c)) = chosenTab c"
  "reactors (fst (requestMore c)) = reactors c"
  "messageReactions (fst (requestMore c)) = messageReactions c"
  "seenByUserIds (fst (requestMore c)) = seenByUserIds c"
  by (simp_all add: requestMore_def)

lemma requestMore_actions:
  "snd (requestMore c) =
     (if hasMore c \<and> \<not> pendingFetch c then [LoadReactors (chatId c) (messageId c)] else [])"
  by (simp add: requestMore_def handleLoadMore_def)

lemma getMoreCalls_effect:
  "getMoreCalls (getMoreEffect h) c = (if getMoreDefined h then requestMore c else (c, []))"
  by (simp add: getMoreEffect_def split_beta)

lemma renderEffects_alt:
  "renderEffects hook old new =
     (if snd (hook new) \<noteq> snd (hook old) \<and> snd (hook new) \<noteq> None
      then requestMore (if depsChanged old new then lifecycleEffect new else new)
      else (if depsChanged old new then lifecycleEffect new else new, []))"
  by (simp add: renderEffects_def Let_def getMoreCalls_effect hookResultOf_def)

lemma renderEffects_isOpen: "isOpen (fst (renderEffects hook old new)) = isOpen new"
  by (simp add: renderEffects_alt requestMore_fields lifecycleEffect_isOpen)

lemma renderEffects_isClosing:
  "isClosing (fst (renderEffects hook old new)) =
     (if depsChanged old new then isClosing new \<and> isOpen new else isClosing new)"
  by (simp add: renderEffects_alt requestMore_fields lifecycleEffect_isClosing)


lemma renderEffects_chosenTab:
  "chosenTab (fst (renderEffects hook old new)) =
     (if depsChanged old new \<and> isClosing new \<and> \<not> isOpen new then None else chosenTab new)"
  by (simp add: renderEffects_alt requestMore_fields lifecycleEffect_chosenTab)

lemma renderEffects_data:
  "reactors (fst (renderEffects hook old new)) = reactors new"
  "messageReactions (fst (renderEffects hook old new)) = messageReactions new"
  "seenByUserIds (fst (renderEffects hook old new)) = seenByUserIds new"
  by (simp_all add: renderEffects_alt requestMore_fields lifecycleEffect_data)

lemma renderEffects_actions:
  "\<forall>a \<in> set (snd (renderEffects hook old new)). isLoadReactors a \<and> hasMore new"
  by (simp add: renderEffects_alt requestMore_actions hasMore_def lifecycleEffect_data)

lemma renderEffects_same_getMore:
  "snd (hook new) = snd (hook old) \<Longrightarrow> \<not> depsChanged old new \<Longrightarrow>
   renderEffects hook old new = (new, [])"
  by (simp add: renderEffects_alt)




lemma step_chosenTab:
  "chosenTab (fst (step hook e c)) =
     (if depsChanged c (fst (handle e c)) \<and> isClosing (fst (handle e c)) \<and>
         \<not> isOpen (fst (handle e c))
      then None else chosenTab (fst (handle e c)))"
  by (auto simp: step_def split_beta renderEffects_isOpen renderEffects_isClosing
      renderEffects_chosenTab depsChanged_def)

lemma step_data:
  "reactors (fst (step hook e c)) = reactors (fst (handle e c))"
  "messageReactions (fst (step hook e c)) = messageReactions (fst (handle e c))"
  "seenByUserIds (fst (step hook e c)) = seenByUserIds (fst (handle e c))"
  by (simp_all add: step_def split_beta renderEffects_data)

lemma step_actions:
  "\<exists>ls. snd (step hook e c) = snd (handle e c) @ ls \<and>
        (\<forall>a \<in> set ls. isLoadReactors a \<and> hasMore (fst (handle e c)))"
proof -
  let ?c1 = "fst (handle e c)"
  let ?r1 = "renderEffects hook c ?c1"
  let ?r2 = "if depsChanged ?c1 (fst ?r1) then renderEffects hook ?c1 (fst ?r1) else (fst ?r1, [])"
  have s: "snd (step hook e c) = snd (handle e c) @ (snd ?r1 @ snd ?r2)"
    by (simp add: step_def split_beta)
  have a1: "\<forall>a \<in> set (snd ?r1). isLoadReactors a \<and> hasMore ?c1"
    by (rule renderEffects_actions)
  have "\<forall>a \<in> set (snd ?r2). isLoadReactors a \<and> hasMore (fst ?r1)"
    using renderEffects_actions [of hook ?c1 "fst ?r1"] by simp
  then have a2: "\<forall>a \<in> set (snd ?r2). isLoadReactors a \<and> hasMore ?c1"
    by (simp add: hasMore_def renderEffects_data)
  from a1 a2 have "\<forall>a \<in> set (snd ?r1 @ snd ?r2). isLoadReactors a \<and> hasMore ?c1"
    by auto
  with s show ?thesis by blast
qed

lemma fst_run_Cons: "fst (run hook (e # es) c) = fst (run hook es (fst (step hook e c)))"
  by (simp add: split_beta)

lemma snd_run_Cons:
  "snd (run hook (e # es) c) = snd (step hook e c) @ snd (run hook es (fst (step hook e c)))"
  by (simp add: split_beta)

section \<open>The filter row and the chosen tab\<close>

lemma step_stays_hidden:
  assumes h: "\<not> canShowFilters (reactors c) (messageReactions c)"
    and n: "chosenTab c = None" and k: "keepsHidden (messageReactions c) e"
  shows "chosenTab (fst (step hook e c)) = None \<and>
         messageReactions (fst (step hook e c)) = messageReactions c \<and>
         \<not> canShowFilters (reactors (fst (step hook e c))) (messageReactions (fst (step hook e c)))"
proof (cases e)
  case (SelectTab t)
  with h n show ?thesis
    by (simp add: step_chosenTab step_data selectTab_def filterTabs_def)
next
  case (PageReceived r)
  with h n k show ?thesis by (simp add: step_chosenTab step_data)
qed (use h n in \<open>simp_all add: step_chosenTab step_data handleClick_def handleClose_def
      requestMore_fields\<close>)

lemma run_stays_hidden:
  "\<not> canShowFilters (reactors c) (messageReactions c) \<Longrightarrow> chosenTab c = None \<Longrightarrow>
   \<forall>e \<in> set es. keepsHidden (messageReactions c) e \<Longrightarrow>
   chosenTab (fst (run hook es c)) = None \<and>
   \<not> canShowFilters (reactors (fst (run hook es c))) (messageReactions (fst (run hook es c)))"
proof (induction es arbitrary: c)
  case Nil
  then show ?case by simp
next
  case (Cons e es)
  from Cons.prems(3) have e: "keepsHidden (messageReactions c) e"
    and es: "\<forall>e \<in> set es. keepsHidden (messageReactions c) e" by simp_all
  note sh = step_stays_hidden [OF Cons.prems(1,2) e, where hook = hook]
  have n1: "chosenTab (fst (step hook e c)) = None"
    by (rule sh [THEN conjunct1])
  have m1: "messageReactions (fst (step hook e c)) = messageReactions c"
    by (rule sh [THEN conjunct2, THEN conjunct1])
  have h1: "\<not> canShowFilters (reactors (fst (step hook e c)))
               (messageReactions (fst (step hook e c)))"
    by (rule sh [THEN conjunct2, THEN conjunct2])
  from es m1 have es1: "\<forall>e' \<in> set es. keepsHidden (messageReactions (fst (step hook e c))) e'"
    by simp
  from Cons.IH [OF h1 n1 es1] show ?case by (simp add: fst_run_Cons del: run.simps)
qed

text \<open>
  Claim C6, as stated, fails.  For the first page of a message with ten reactions whose
  results list the kinds thumbsup and heart, the filter row is rendered with the "all"
  button and a button for thumbsup only: heart is a distinct kind among the results and
  gets no button.  And two result rows of one and the same kind reach the threshold,
  although the results hold one distinct kind.
\<close>

theorem filterTabs_not_per_result_kind:
  "canShowFilters (Some firstPageReactors) (Some twoKindResults) \<and>
   resultKinds (Some twoKindResults) = [''thumbsup'', ''heart''] \<and>
   filterTabs (Some firstPageReactors) (Some twoKindResults) = [AllTab, KindTab ''thumbsup''] \<and>
   KindTab ''heart'' \<notin> set (filterTabs (Some firstPageReactors) (Some twoKindResults)) \<and>
   canShowFilters (Some firstPageReactors) (Some sameKindResults) \<and>
   set (resultKinds (Some sameKindResults)) = {''thumbsup''}"
  by (simp add: example_defs)

text \<open>
  Claim C6, amended.  The filter row is rendered exactly when \<^verbatim>\<open>reactors\<close> and \<^verbatim>\<open>reactions\<close>
  are present, the total reaction count (\<^verbatim>\<open>reactors.count\<close>) is at least 10 and
  \<^verbatim>\<open>reactions.results\<close> has more than one row, which is more than one distinct kind when
  the rows are of distinct kinds.  When the row is not rendered there is no button, and
  for as long as no received page makes it rendered, a chosen tab that is absent stays
  absent under every sequence of events.  When the row is rendered, it holds the "all"
  button followed by one button per distinct reaction kind of the reactor entries loaded
  so far.
\<close>

theorem filter_row_threshold_and_tabs:
  "(canShowFilters rs mr \<longleftrightarrow>
      10 \<le> totalReactionCount rs \<and> 1 < length (resultKinds mr)) \<and>
   (distinct (resultKinds mr) \<longrightarrow>
      (canShowFilters rs mr \<longleftrightarrow>
         10 \<le> totalReactionCount rs \<and> 1 < card (set (resultKinds mr)))) \<and>
   (\<not> canShowFilters rs mr \<longrightarrow> filterTabs rs mr = []) \<and>
   (\<not> canShowFilters (reactors c) (messageReactions c) \<and> chosenTab c = None \<and>
    (\<forall>e \<in> set es. keepsHidden (messageReactions c) e) \<longrightarrow>
      chosenTab (fst (run hook es c)) = None \<and>
      \<not> canShowFilters (reactors (fst (run hook es c))) (messageReactions (fst (run hook es c)))) \<and>
   (canShowFilters rs mr \<longrightarrow>
      filterTabs rs mr = AllTab # map KindTab (allReactions rs) \<and>
      distinct (allReactions rs) \<and>
      set (allReactions rs) = reaction ` set (orEmpty (map_option reactions rs)))"
proof (intro conjI impI)
  show "canShowFilters rs mr \<longleftrightarrow> 10 \<le> totalReactionCount rs \<and> 1 < length (resultKinds mr)"
    by (rule canShowFilters_iff)
next
  assume "distinct (resultKinds mr)"
  then have "card (set (resultKinds mr)) = length (resultKinds mr)"
    by (rule distinct_card)
  then show "canShowFilters rs mr \<longleftrightarrow>
      10 \<le> totalReactionCount rs \<and> 1 < card (set (resultKinds mr))"
    by (simp add: canShowFilters_iff)
next
  assume "\<not> canShowFilters rs mr"
  then show "filterTabs rs mr = []" by (simp add: filterTabs_def)
next
  assume a: "\<not> canShowFilters (reactors c) (messageReactions c) \<and> chosenTab c = None \<and>
    (\<forall>e \<in> set es. keepsHidden (messageReactions c) e)"
  then have "chosenTab (fst (run hook es c)) = None \<and>
      \<not> canShowFilters (reactors (fst (run hook es c))) (messageReactions (fst (run hook es c)))"
    using run_stays_hidden [of c es hook] by simp
  then show "chosenTab (fst (run hook es c)) = None"
    and "\<not> canShowFilters (reactors (fst (run hook es c))) (messageReactions (fst (run hook es c)))"
    by simp_all
next
  assume "canShowFilters rs mr"
  then show "filterTabs rs mr = AllTab # map KindTab (allReactions rs)"
    by (simp add: filterTabs_def)
next
  show "distinct (allReactions rs)" by (rule distinct_allReactions)
next
  show "set (allReactions rs) = reaction ` set (orEmpty (map_option reactions rs))"
    by (rule set_allReactions)
qed

theorem filter_row_threshold_and_tabs_witness:
  "distinct (resultKinds (Some twoKindResults)) \<and>
   canShowFilters (Some firstPageReactors) (Some twoKindResults) \<and>
   filterTabs (Some firstPageReactors) (Some twoKindResults) = [AllTab, KindTab ''thumbsup''] \<and>
   \<not> canShowFilters (Some scenarioReactors) (Some twoKindResults) \<and>
   filterTabs (Some scenarioReactors) (Some twoKindResults) = [] \<and>
   \<not> canShowFilters (reactors fewReactionsState) (messageReactions fewReactionsState) \<and>
   chosenTab fewReactionsState = None \<and>
   keepsHidden (messageReactions fewReactionsState) (SelectTab (KindTab ''thumbsup'')) \<and>
   keepsHidden (messageReactions fewReactionsState) ScrollNearEnd \<and>
   keepsHidden (messageReactions fewReactionsState) (PageReceived scenarioReactors) \<and>
   chosenTab (fst (run listKeyedHook
       [SelectTab (KindTab ''thumbsup''), ScrollNearEnd, PageReceived scenarioReactors]
       fewReactionsState)) = None"
  using filter_row_threshold_and_tabs
      [of "Some firstPageReactors" "Some twoKindResults" openState "[]" listKeyedHook]
    filter_row_threshold_and_tabs
      [of "Some scenarioReactors" "Some twoKindResults" fewReactionsState
        "[SelectTab (KindTab ''thumbsup''), ScrollNearEnd, PageReceived scenarioReactors]"
        listKeyedHook]
  by (simp add: example_defs)

section \<open>Closing, reopening and the pending navigation\<close>




lemma handleCloseAnimationEnd_no_load:
  "\<forall>a \<in> set (handleCloseAnimationEnd c). \<not> isLoadReactors a"
  by (auto simp: handleCloseAnimationEnd_def split: option.splits)












section \<open>Pagination\<close>

lemma step_disabled:
  assumes d: "isDisabled (reactors c)" and e: "\<not> isPageReceived e"
  shows "reactors (fst (step hook e c)) = reactors c \<and>
         (\<forall>a \<in> set (snd (step hook e c)). \<not> isLoadReactors a)"
proof
  from e have r: "reactors (fst (handle e c)) = reactors c"
    by (cases e) (simp_all add: handleClick_def handleClose_def selectTab_def requestMore_fields)
  then show "reactors (fst (step hook e c)) = reactors c" by (simp add: step_data)
  from d have h: "\<forall>a \<in> set (snd (handle e c)). \<not> isLoadReactors a"
    by (cases e) (simp_all add: requestMore_actions hasMore_def handleCloseAnimationEnd_no_load)
  obtain ls where s: "snd (step hook e c) = snd (handle e c) @ ls"
    and l: "\<forall>a \<in> set ls. isLoadReactors a \<and> hasMore (fst (handle e c))"
    using step_actions [of hook e c] by blast
  from r d have "\<not> hasMore (fst (handle e c))" by (simp add: hasMore_def)
  with l have "set ls = {}" by auto
  then have "ls = []" by simp
  with h s show "\<forall>a \<in> set (snd (step hook e c)). \<not> isLoadReactors a" by simp
qed

lemma run_disabled:
  "isDisabled (reactors c) \<Longrightarrow> \<forall>e \<in> set es. \<not> isPageReceived e \<Longrightarrow>
   reactors (fst (run hook es c)) = reactors c \<and>
   (\<forall>a \<in> set (snd (run hook es c)). \<not> isLoadReactors a)"
proof (induction es arbitrary: c)
  case Nil
  then show ?case by simp
next
  case (Cons e es)
  from Cons.prems have e: "\<not> isPageReceived e" and es: "\<forall>e \<in> set es. \<not> isPageReceived e"
    by simp_all
  from step_disabled [OF Cons.prems(1) e, where hook = hook]
  have s1: "reactors (fst (step hook e c)) = reactors c"
    and s2: "\<forall>a \<in> set (snd (step hook e c)). \<not> isLoadReactors a" by simp_all
  from s1 Cons.prems(1) have d: "isDisabled (reactors (fst (step hook e c)))" by simp
  from Cons.IH [OF d es] s1 s2 show ?case
    by (auto simp only: fst_run_Cons snd_run_Cons set_append Un_iff)
qed

lemma step_PageReceived:
  "reactors (fst (step hook (PageReceived r) c)) = Some r \<and>
   (nextOffset r = None \<longrightarrow> snd (step hook (PageReceived r) c) = [])"
proof
  show "reactors (fst (step hook (PageReceived r) c)) = Some r" by (simp add: step_data)
  obtain ls where s: "snd (step hook (PageReceived r) c) = snd (handle (PageReceived r) c) @ ls"
    and l: "\<forall>a \<in> set ls. isLoadReactors a \<and> hasMore (fst (handle (PageReceived r) c))"
    using step_actions [of hook "PageReceived r" c] by blast
  show "nextOffset r = None \<longrightarrow> snd (step hook (PageReceived r) c) = []"
  proof
    assume "nextOffset r = None"
    then have "\<not> hasMore (fst (handle (PageReceived r) c))"
      by (simp add: hasMore_def isDisabled_def)
    with l have "set ls = {}" by auto
    then have "ls = []" by simp
    with s show "snd (step hook (PageReceived r) c) = []" by simp
  qed
qed

text \<open>
  Claim C5.  Once a page without a next offset has been received, \<open>hasMore\<close> is false
  (the component passes \<^verbatim>\<open>isDisabled\<close> true to the hook), it stays false, and no
  \<^verbatim>\<open>loadReactors\<close> is dispatched by any later events, scroll-near-end events included, as
  long as no other page arrives; this holds whatever \<^verbatim>\<open>getMore\<close> the hook returns at each
  render.
\<close>

theorem no_fetch_after_last_page:
  "nextOffset r = None \<Longrightarrow> \<forall>e \<in> set es. \<not> isPageReceived e \<Longrightarrow>
   \<not> hasMore (fst (step hook (PageReceived r) c)) \<and>
   \<not> hasMore (fst (run hook (PageReceived r # es) c)) \<and>
   (\<forall>a \<in> set (snd (run hook (PageReceived r # es) c)). \<not> isLoadReactors a)"
proof -
  let ?c1 = "fst (step hook (PageReceived r) c)"
  assume last: "nextOffset r = None" and es: "\<forall>e \<in> set es. \<not> isPageReceived e"
  from last have r1: "reactors ?c1 = Some r" and a1: "snd (step hook (PageReceived r) c) = []"
    using step_PageReceived [of hook r c] by simp_all
  from r1 last have d: "isDisabled (reactors ?c1)" by (simp add: isDisabled_def)
  from run_disabled [OF d es, where hook = hook]
  have r2: "reactors (fst (run hook es ?c1)) = reactors ?c1"
    and a2: "\<forall>a \<in> set (snd (run hook es ?c1)). \<not> isLoadReactors a" by simp_all
  from d r2 a1 a2 show ?thesis
    by (simp add: hasMore_def fst_run_Cons snd_run_Cons del: run.simps)
qed

theorem no_fetch_after_last_page_witness:
  "nextOffset scenarioReactors = None \<and>
   \<not> isPageReceived ScrollNearEnd \<and> \<not> isPageReceived FetchFailed \<and>
   snd (step listKeyedHook ScrollNearEnd openState) = [LoadReactors (Some ''chat'') (Some 7)] \<and>
   \<not> hasMore (fst (step listKeyedHook (PageReceived scenarioReactors) openState)) \<and>
   snd (run listKeyedHook (PageReceived scenarioReactors # [ScrollNearEnd, FetchFailed, ScrollNearEnd])
          openState) = []"
  using no_fetch_after_last_page
    [of scenarioReactors "[ScrollNearEnd, FetchFailed, ScrollNearEnd]" listKeyedHook openState]
  by (simp add: example_defs)

section \<open>Filter selection\<close>

lemma selectTab_fields:
  "isOpen (selectTab t c) = isOpen c"
  "isClosing (selectTab t c) = isClosing c"
  "reactors (selectTab t c) = reactors c"
  "messageReactions (selectTab t c) = messageReactions c"
  "seenByUserIds (selectTab t c) = seenByUserIds c"
  "chatId (selectTab t c) = chatId c"
  "messageId (selectTab t c) = messageId c"
  "pendingFetch (selectTab t c) = pendingFetch c"
  by (simp_all add: selectTab_def)

lemma step_SelectTab:
  "step hook (SelectTab t) c = renderEffects hook c (selectTab t c)"
proof -
  have nd: "\<not> depsChanged c (selectTab t c)"
    by (simp add: depsChanged_def selectTab_fields)
  have "\<not> depsChanged (selectTab t c) (fst (renderEffects hook c (selectTab t c)))"
    using nd
    by (simp add: depsChanged_def renderEffects_isOpen renderEffects_isClosing
        selectTab_fields)
  then show ?thesis by (simp add: step_def split_beta)
qed

lemma step_SelectTab_actions:
  "snd (step hook (SelectTab t) c) =
     (if snd (hook (selectTab t c)) \<noteq> snd (hook c) \<and> snd (hook (selectTab t c)) \<noteq> None \<and>
         hasMore c \<and> \<not> pendingFetch c
      then [LoadReactors (chatId c) (messageId c)] else [])"
  by (simp add: step_SelectTab renderEffects_alt requestMore_actions depsChanged_def
      selectTab_fields hasMore_def)

lemma step_SelectTab_stable:
  "snd (hook (selectTab t c)) = snd (hook c) \<Longrightarrow> step hook (SelectTab t) c = (selectTab t c, [])"
  by (simp add: step_SelectTab renderEffects_alt depsChanged_def selectTab_fields)

lemma run_SelectTab_stable:
  "\<forall>c'. snd (hook c') = snd (hook c) \<Longrightarrow>
   snd (run hook (map SelectTab ts) c) = [] \<and>
   reactors (fst (run hook (map SelectTab ts) c)) = reactors c \<and>
   seenByUserIds (fst (run hook (map SelectTab ts) c)) = seenByUserIds c \<and>
   pendingFetch (fst (run hook (map SelectTab ts) c)) = pendingFetch c"
proof (induction ts arbitrary: c)
  case Nil
  then show ?case by simp
next
  case (Cons t ts)
  from Cons.prems have "snd (hook (selectTab t c)) = snd (hook c)" by simp
  then have s: "step hook (SelectTab t) c = (selectTab t c, [])"
    by (rule step_SelectTab_stable)
  from Cons.prems have "\<forall>c'. snd (hook c') = snd (hook (selectTab t c))" by metis
  from Cons.IH [OF this] s show ?case
    by (simp add: selectTab_fields)
qed

text \<open>
  Claim C7, as stated, fails.  With a hook that returns another \<^verbatim>\<open>getMore\<close> when the list it
  is given changes, a click on the thumbsup button changes \<open>userIds\<close>, the effect on
  \<^verbatim>\<open>[getMore]\<close> runs again, and its \<^verbatim>\<open>getMore\<close> call dispatches \<^verbatim>\<open>loadReactors\<close>; the click
  handler itself dispatches nothing.
\<close>

theorem selectTab_refetches_with_renewed_getMore:
  "KindTab ''thumbsup'' \<in> set (filterTabs (reactors openState) (messageReactions openState)) \<and>
   snd (handle (SelectTab (KindTab ''thumbsup'')) openState) = [] \<and>
   snd (step listKeyedHook (SelectTab (KindTab ''thumbsup'')) openState)
     = [LoadReactors (Some ''chat'') (Some 7)]"
  by (simp add: example_defs)

text \<open>
  Claim C7, amended.  The handler of a click in the filter row dispatches nothing and
  leaves the reactor entries and the seen ids as they were; a click on a rendered button
  sets \<open>chosenTab\<close> to that button's value.  After the render that follows, one
  \<^verbatim>\<open>loadReactors\<close> is dispatched exactly when the hook has returned another \<^verbatim>\<open>getMore\<close> than
  at the render before, more pages exist and no fetch is pending; otherwise nothing is
  dispatched.  With a hook that returns the same \<^verbatim>\<open>getMore\<close> at every render, no sequence
  of clicks in the filter row dispatches anything.
\<close>

theorem selectTab_fetches_only_through_getMore_effect:
  "snd (handle (SelectTab t) c) = [] \<and>
   reactors (fst (step hook (SelectTab t) c)) = reactors c \<and>
   seenByUserIds (fst (step hook (SelectTab t) c)) = seenByUserIds c \<and>
   (t \<in> set (filterTabs (reactors c) (messageReactions c)) \<longrightarrow>
      chosenTab (fst (step hook (SelectTab t) c)) = tabValue t) \<and>
   snd (step hook (SelectTab t) c) =
     (if snd (hook (selectTab t c)) \<noteq> snd (hook c) \<and> snd (hook (selectTab t c)) \<noteq> None \<and>
         hasMore c \<and> \<not> pendingFetch c
      then [LoadReactors (chatId c) (messageId c)] else []) \<and>
   ((\<forall>c'. snd (hook c') = snd (hook c)) \<longrightarrow>
      snd (run hook (map SelectTab ts) c) = [] \<and>
      reactors (fst (run hook (map SelectTab ts) c)) = reactors c \<and>
      seenByUserIds (fst (run hook (map SelectTab ts) c)) = seenByUserIds c \<and>
      pendingFetch (fst (run hook (map SelectTab ts) c)) = pendingFetch c)"
proof (intro conjI impI)
  show "snd (handle (SelectTab t) c) = []" by simp
  show "reactors (fst (step hook (SelectTab t) c)) = reactors c"
    by (simp add: step_data selectTab_fields)
  show "seenByUserIds (fst (step hook (SelectTab t) c)) = seenByUserIds c"
    by (simp add: step_data selectTab_fields)
  show "snd (step hook (SelectTab t) c) =
     (if snd (hook (selectTab t c)) \<noteq> snd (hook c) \<and> snd (hook (selectTab t c)) \<noteq> None \<and>
         hasMore c \<and> \<not> pendingFetch c
      then [LoadReactors (chatId c) (messageId c)] else [])"
    by (rule step_SelectTab_actions)
  {
    assume "t \<in> set (filterTabs (reactors c) (messageReactions c))"
    then show "chosenTab (fst (step hook (SelectTab t) c)) = tabValue t"
      by (simp add: step_chosenTab selectTab_def depsChanged_def)
  }
  {
    assume st: "\<forall>c'. snd (hook c') = snd (hook c)"
    from run_SelectTab_stable [OF st, of ts]
    show "snd (run hook (map SelectTab ts) c) = []"
      and "reactors (fst (run hook (map SelectTab ts) c)) = reactors c"
      and "seenByUserIds (fst (run hook (map SelectTab ts) c)) = seenByUserIds c"
      and "pendingFetch (fst (run hook (map SelectTab ts) c)) = pendingFetch c"
      by simp_all
  }
qed

theorem selectTab_fetches_only_through_getMore_effect_witness:
  "KindTab ''thumbsup'' \<in> set (filterTabs (reactors openState) (messageReactions openState)) \<and>
   chosenTab (fst (step stableHook (SelectTab (KindTab ''thumbsup'')) openState))
     = Some ''thumbsup'' \<and>
   snd (step stableHook (SelectTab (KindTab ''thumbsup'')) openState) = [] \<and>
   snd (run stableHook (map SelectTab [KindTab ''thumbsup'', AllTab]) openState) = [] \<and>
   snd (step listKeyedHook (SelectTab (KindTab ''thumbsup'')) openState)
     = [LoadReactors (Some ''chat'') (Some 7)]"
  using selectTab_fetches_only_through_getMore_effect [of "KindTab ''thumbsup''" openState stableHook "[KindTab ''thumbsup'', AllTab]"]
    selectTab_fetches_only_through_getMore_effect [of "KindTab ''thumbsup''" openState listKeyedHook "[]"]
  by (simp add: example_defs)

section \<open>Mount\<close>

text \<open>
  Claim C8.  On mount the effect calls the hook's \<^verbatim>\<open>getMore\<close>, when the hook returns one,
  exactly once and with the direction \<open>Backwards\<close>, whatever \<open>viewportIds\<close> holds; with more
  pages to load, the mount thereby dispatches one \<^verbatim>\<open>loadReactors\<close> for the chat and message
  of the overlay.
\<close>

theorem mount_requests_more_backwards:
  "getMoreDefined h \<Longrightarrow>
   getMoreEffect h = [Backwards] \<and>
   getMoreEffect (h\<lparr>viewportIds := v\<rparr>) = [Backwards] \<and>
   (\<not> isDisabled rs \<longrightarrow>
      snd (mount (initialState open rs mr cid mid seen) h) = [LoadReactors cid mid])"
  by (simp add: getMoreEffect_def mount_def initialState_def lifecycleEffect_def Let_def
      requestMore_def hasMore_def handleLoadMore_def)

theorem mount_requests_more_backwards_witness:
  "getMoreDefined \<lparr>viewportIds = Some [], getMoreDefined = True\<rparr> \<and>
   \<not> isDisabled None \<and>
   getMoreEffect \<lparr>viewportIds = Some [], getMoreDefined = True\<rparr> = [Backwards] \<and>
   snd (mount (initialState True None None (Some ''chat'') (Some 7) None)
          \<lparr>viewportIds = Some [], getMoreDefined = True\<rparr>)
     = [LoadReactors (Some ''chat'') (Some 7)]"
  using mount_requests_more_backwards
    [of "\<lparr>viewportIds = Some [], getMoreDefined = True\<rparr>" None None True None
      "Some ''chat''" "Some 7" None]
  by (simp add: example_defs mount_def)

end
